theory Spec2Isabelle
  imports Main "HOL-Library.AList"
begin

section \<open>The ETL example: extract, transform, load\<close>

text \<open>
  A shallow embedding of \<^verbatim>\<open>05-data-engineering/projects/simple-etl/etl_example.py\<close>.

  Conventions of the model.
  \<^item> Text is ASCII: a Python \<^verbatim>\<open>str\<close> is a \<^typ>\<open>string\<close>, and the string methods
    below give the behaviour of CPython on ASCII characters. Characters outside ASCII
    (where \<^verbatim>\<open>strip\<close>, \<^verbatim>\<open>lower\<close>, \<^verbatim>\<open>title\<close> and \<^verbatim>\<open>int\<close> consult the Unicode
    tables) are outside the model.
  \<^item> Exceptions are values: a function that may raise returns \<open>py_exception + 'a\<close>.
  \<^item> \<^verbatim>\<open>print\<close> is a list of events, in order; the wall-clock timestamps inside the
    printed lines are left out.
  \<^item> \<^verbatim>\<open>datetime.now().strftime('%Y-%m-%d')\<close> is read once per record; the model takes a
    clock that gives the date string read while the \<open>i\<close>-th record is transformed.
  \<^item> The environment is well behaved: a source file that exists and opens is
    decodable text that the csv module accepts, and the target database is either absent or
    holds the \<^verbatim>\<open>users\<close> table with the schema of the source. What the database engine
    answers to one statement is a parameter of the loader (see \<open>load_data_with\<close>).
\<close>

subsection \<open>Python values and exceptions\<close>

datatype py_exception = ValueError | TypeError | AttributeError | OverflowError | OSError

text \<open>
  The values a field of a row can hold: \<^verbatim>\<open>csv.DictReader\<close> gives a \<^verbatim>\<open>str\<close>, \<^verbatim>\<open>None\<close>
  (a row shorter than the header) or a list of strings (under the key \<^verbatim>\<open>None\<close>, a row
  longer than the header); the default of \<^verbatim>\<open>record.get('id', 0)\<close> is an \<^verbatim>\<open>int\<close>.
\<close>

datatype py_value = PyStr string | PyNone | PyList "string list" | PyInt int

text \<open>A row as a Python dict: keys in insertion order, \<open>None\<close> the key \<^verbatim>\<open>None\<close>.\<close>

type_synonym raw_record = "(string option \<times> py_value) list"

definition dict_get :: "raw_record \<Rightarrow> string \<Rightarrow> py_value \<Rightarrow> py_value" where
  \<comment> \<open>\<^verbatim>\<open>record.get(key, default)\<close>\<close>
  "dict_get r k d = (case map_of r (Some k) of Some v \<Rightarrow> v | None \<Rightarrow> d)"

definition truthy :: "py_value \<Rightarrow> bool" where
  "truthy v = (case v of PyStr s \<Rightarrow> s \<noteq> [] | PyNone \<Rightarrow> False
                 | PyList l \<Rightarrow> l \<noteq> [] | PyInt n \<Rightarrow> n \<noteq> 0)"

subsection \<open>String methods on ASCII text\<close>

definition str_isspace :: "char \<Rightarrow> bool" where
  \<comment> \<open>\<^verbatim>\<open>str.isspace\<close>: tab, LF, VT, FF, CR, the separators 0x1C..0x1F, space\<close>
  "str_isspace c = (c \<in> set [CHR 0x09, CHR 0x0A, CHR 0x0B, CHR 0x0C, CHR 0x0D,
                                CHR 0x1C, CHR 0x1D, CHR 0x1E, CHR 0x1F, CHR 0x20])"

definition c_isspace :: "char \<Rightarrow> bool" where
  \<comment> \<open>\<^verbatim>\<open>Py_ISSPACE\<close>, the white space \<^verbatim>\<open>int\<close> skips in an ASCII string\<close>
  "c_isspace c = (c \<in> set [CHR 0x09, CHR 0x0A, CHR 0x0B, CHR 0x0C, CHR 0x0D, CHR 0x20])"

definition ascii_uppercase :: string where
  "ascii_uppercase = ''ABCDEFGHIJKLMNOPQRSTUVWXYZ''"

definition ascii_lowercase :: string where
  "ascii_lowercase = ''abcdefghijklmnopqrstuvwxyz''"

definition char_lower :: "char \<Rightarrow> char" where
  "char_lower c = (case map_of (zip ascii_uppercase ascii_lowercase) c of
                     Some d \<Rightarrow> d | None \<Rightarrow> c)"

definition char_upper :: "char \<Rightarrow> char" where
  "char_upper c = (case map_of (zip ascii_lowercase ascii_uppercase) c of
                     Some d \<Rightarrow> d | None \<Rightarrow> c)"

definition is_cased :: "char \<Rightarrow> bool" where
  "is_cased c = (c \<in> set ascii_uppercase \<or> c \<in> set ascii_lowercase)"

definition str_strip :: "string \<Rightarrow> string" where
  "str_strip s = rev (dropWhile str_isspace (rev (dropWhile str_isspace s)))"

definition str_lower :: "string \<Rightarrow> string" where
  "str_lower s = map char_lower s"

text \<open>
  \<^verbatim>\<open>str.title\<close>: a character that follows a cased character is lowercased, any other is
  uppercased (\<^verbatim>\<open>"o'neil"\<close> becomes \<^verbatim>\<open>"O'Neil"\<close>).
\<close>

fun title_from :: "bool \<Rightarrow> string \<Rightarrow> string" where
  "title_from previous_is_cased [] = []"
| "title_from previous_is_cased (c # cs) =
     (if previous_is_cased then char_lower c else char_upper c) # title_from (is_cased c) cs"

definition str_title :: "string \<Rightarrow> string" where
  "str_title s = title_from False s"

subsection \<open>\<^verbatim>\<open>int\<close>\<close>

definition is_digit :: "char \<Rightarrow> bool" where
  "is_digit c = (c \<in> set ''0123456789'')"

definition digit_value :: "char \<Rightarrow> int" where
  "digit_value c = (case map_of (zip ''0123456789'' [0, 1, 2, 3, 4, 5, 6, 7, 8, 9]) c of
                      Some d \<Rightarrow> d | None \<Rightarrow> 0)"

text \<open>
  The digits of a literal, with single underscores allowed between digits. The flag says
  that the previous character was an underscore. The result is the digits read (the
  underscores left out) and the rest of the text, or \<open>None\<close> where CPython rejects the
  literal (a doubled or trailing underscore).
\<close>

fun scan_digits :: "bool \<Rightarrow> string \<Rightarrow> (string \<times> string) option" where
  "scan_digits prev_underscore [] = (if prev_underscore then None else Some ([], []))"
| "scan_digits prev_underscore (c # cs) =
     (if is_digit c then
        (case scan_digits False cs of None \<Rightarrow> None | Some (ds, rest) \<Rightarrow> Some (c # ds, rest))
      else if c = CHR ''_'' then
        (if prev_underscore then None else scan_digits True cs)
      else if prev_underscore then None
      else Some ([], c # cs))"

definition digits_value :: "string \<Rightarrow> int" where
  "digits_value ds = foldl (\<lambda>n c. 10 * n + digit_value c) 0 ds"

definition max_str_digits :: nat where
  \<comment> \<open>CPython's default limit on the digits of a decimal literal\<close>
  "max_str_digits = 4300"

text \<open>
  \<^verbatim>\<open>int(s)\<close> for a string, base 10: white space, an optional sign, the digits, white
  space, the end. \<open>None\<close> is \<^verbatim>\<open>ValueError\<close>.
\<close>

definition int_of_str :: "string \<Rightarrow> int option" where
  "int_of_str s =
     (let s1 = dropWhile c_isspace s;
          negative = (s1 \<noteq> [] \<and> hd s1 = CHR ''-'');
          s2 = (if s1 \<noteq> [] \<and> (hd s1 = CHR ''+'' \<or> hd s1 = CHR ''-'') then tl s1 else s1)
      in if s2 \<noteq> [] \<and> hd s2 = CHR ''_'' then None
         else (case scan_digits False s2 of
                 None \<Rightarrow> None
               | Some (ds, rest) \<Rightarrow>
                   if ds = [] \<or> max_str_digits < length ds \<or> dropWhile c_isspace rest \<noteq> []
                   then None
                   else Some (if negative then - digits_value ds else digits_value ds)))"

definition py_int :: "py_value \<Rightarrow> py_exception + int" where
  "py_int v = (case v of
                 PyInt n \<Rightarrow> Inr n
               | PyStr s \<Rightarrow> (case int_of_str s of None \<Rightarrow> Inl ValueError | Some n \<Rightarrow> Inr n)
               | PyNone \<Rightarrow> Inl TypeError
               | PyList l \<Rightarrow> Inl TypeError)"

definition py_strip :: "py_value \<Rightarrow> py_exception + string" where
  \<comment> \<open>\<^verbatim>\<open>v.strip()\<close>: only a \<^verbatim>\<open>str\<close> has the method\<close>
  "py_strip v = (case v of PyStr s \<Rightarrow> Inr (str_strip s) | _ \<Rightarrow> Inl AttributeError)"

subsection \<open>Transform\<close>

record clean_record =
  id' :: int
  name :: string
  email :: string
  age :: "int option"
  city :: string
  processed_date :: string

datatype event =
    ExtractingFrom string
  | ExtractedCount nat
  | FileNotFoundMsg string
  | TransformingMsg
  | SkippingInvalid raw_record
  | TransformedCount nat
  | LoadingMsg
  | InsertErrorMsg int string
  | LoadedCount nat
  | StartingPipeline
  | NoDataExiting
  | PipelineCompleted

text \<open>
  The dict literal of \<^verbatim>\<open>transform_data\<close>, its fields evaluated in the order of the
  source; the first conversion that raises ends the evaluation.
\<close>

definition and_then :: "'e + 'a \<Rightarrow> ('a \<Rightarrow> 'e + 'b) \<Rightarrow> 'e + 'b" where
  \<comment> \<open>evaluate, and go on with the value unless an exception was raised\<close>
  "and_then x f = (case x of Inl e \<Rightarrow> Inl e | Inr a \<Rightarrow> f a)"

definition transform_record :: "string \<Rightarrow> raw_record \<Rightarrow> py_exception + clean_record" where
  "transform_record today r =
     and_then (py_int (dict_get r ''id'' (PyInt 0))) (\<lambda>i.
     and_then (py_strip (dict_get r ''name'' (PyStr []))) (\<lambda>n.
     and_then (py_strip (dict_get r ''email'' (PyStr []))) (\<lambda>m.
     and_then (if truthy (dict_get r ''age'' PyNone)
               then and_then (py_int (dict_get r ''age'' (PyInt 0))) (\<lambda>a. Inr (Some a))
               else Inr None) (\<lambda>a.
     and_then (py_strip (dict_get r ''city'' (PyStr []))) (\<lambda>c.
       Inr \<lparr>id' = i, name = str_title n, email = str_lower m, age = a,
            city = str_title c, processed_date = today\<rparr>)))))"

definition email_ok :: "clean_record \<Rightarrow> bool" where
  \<comment> \<open>\<^verbatim>\<open>transformed_record['email'] and '@' in transformed_record['email']\<close>\<close>
  "email_ok c = (email c \<noteq> [] \<and> CHR ''@'' \<in> set (email c))"

text \<open>
  The loop of \<^verbatim>\<open>transform_data\<close>: \<open>i\<close> is the index of the next record, \<open>transformed\<close> the
  list built so far, \<open>out\<close> the lines printed so far. An exception leaves the loop with
  what was printed before it.
\<close>

fun transform_loop ::
  "(nat \<Rightarrow> string) \<Rightarrow> nat \<Rightarrow> raw_record list \<Rightarrow> clean_record list \<Rightarrow> event list
     \<Rightarrow> (py_exception + clean_record list) \<times> event list" where
  "transform_loop clock i [] transformed out = (Inr transformed, out)"
| "transform_loop clock i (r # rs) transformed out =
     (case transform_record (clock i) r of
        Inl e \<Rightarrow> (Inl e, out)
      | Inr c \<Rightarrow>
          if email_ok c then transform_loop clock (Suc i) rs (transformed @ [c]) out
          else transform_loop clock (Suc i) rs transformed (out @ [SkippingInvalid r]))"

definition transform_data ::
  "(nat \<Rightarrow> string) \<Rightarrow> raw_record list \<Rightarrow> (py_exception + clean_record list) \<times> event list" where
  "transform_data clock data =
     (case transform_loop clock 0 data [] [TransformingMsg] of
        (Inl e, out) \<Rightarrow> (Inl e, out)
      | (Inr transformed, out) \<Rightarrow>
          (Inr transformed, out @ [TransformedCount (length transformed)]))"

subsection \<open>Extract\<close>

text \<open>
  What \<^verbatim>\<open>open(csv_file, 'r')\<close> finds at a path: nothing (\<^verbatim>\<open>FileNotFoundError\<close>), something
  that cannot be opened (another \<^verbatim>\<open>OSError\<close>), or a text file, given as the rows that
  \<^verbatim>\<open>csv.reader\<close> yields for it (a blank line is the empty row).
\<close>

datatype source_file = NoSuchFile | CannotOpen | TextFile "string list list"

type_synonym filesystem = "string \<Rightarrow> source_file"

text \<open>
  One row of \<^verbatim>\<open>csv.DictReader\<close>: \<^verbatim>\<open>dict(zip(fieldnames, row))\<close>, then the surplus values
  under the key \<^verbatim>\<open>None\<close>, or \<^verbatim>\<open>None\<close> for the fields the row lacks.
\<close>

definition dict_row :: "string list \<Rightarrow> string list \<Rightarrow> raw_record" where
  "dict_row fieldnames row =
     (let d = fold (\<lambda>(k, v) d. AList.update (Some k) (PyStr v) d) (zip fieldnames row) [];
          lf = length fieldnames;
          lr = length row
      in if lf < lr then AList.update None (PyList (drop lf row)) d
         else if lr < lf then fold (\<lambda>k d. AList.update (Some k) PyNone d) (drop lr fieldnames) d
         else d)"

definition dict_reader :: "string list list \<Rightarrow> raw_record list" where
  \<comment> \<open>the first row is the header; blank rows after it are skipped\<close>
  "dict_reader rows =
     (case rows of
        [] \<Rightarrow> []
      | fieldnames # rest \<Rightarrow> map (dict_row fieldnames) (filter (\<lambda>row. row \<noteq> []) rest))"

definition extract_data ::
  "filesystem \<Rightarrow> string \<Rightarrow> (py_exception + raw_record list) \<times> event list" where
  "extract_data fs csv_file =
     (case fs csv_file of
        NoSuchFile \<Rightarrow> (Inr [], [ExtractingFrom csv_file, FileNotFoundMsg csv_file])
      | CannotOpen \<Rightarrow> (Inl OSError, [ExtractingFrom csv_file])
      | TextFile rows \<Rightarrow>
          (let data = dict_reader rows
           in (Inr data, [ExtractingFrom csv_file, ExtractedCount (length data)])))"

subsection \<open>Load\<close>

text \<open>
  The \<^verbatim>\<open>users\<close> table is the list of its rows. The state of the target database is
  \<open>None\<close> while the table does not exist (the database file may not exist either).
\<close>

type_synonym table = "clean_record list"

type_synonym database = "table option"

text \<open>
  The answer of \<^verbatim>\<open>cursor.execute\<close> to one statement: the table after it, an exception of
  class \<^verbatim>\<open>sqlite3.Error\<close> (with its message), or another exception.
\<close>

datatype exec_result = Executed table | SqliteError string | Raised py_exception

definition fits_int64 :: "int \<Rightarrow> bool" where
  \<comment> \<open>the integers sqlite3 can bind: a signed 64-bit value\<close>
  "fits_int64 n = (- (2 ^ 63) \<le> n \<and> n < 2 ^ 63)"

definition bindable :: "clean_record \<Rightarrow> bool" where
  "bindable r = (fits_int64 (id' r) \<and> (case age r of None \<Rightarrow> True | Some a \<Rightarrow> fits_int64 a))"

text \<open>
  \<^verbatim>\<open>INSERT OR REPLACE INTO users (...) VALUES (?, ?, ?, ?, ?, ?)\<close> on the schema of the
  source (\<^verbatim>\<open>id INTEGER PRIMARY KEY\<close>, \<^verbatim>\<open>email TEXT UNIQUE NOT NULL\<close>): binding an integer
  outside 64 bits raises \<^verbatim>\<open>OverflowError\<close>, which is not an \<^verbatim>\<open>sqlite3.Error\<close>; otherwise
  REPLACE deletes every row that conflicts with the new one, on the primary key or on the
  unique email, and inserts the new row. The values bound for the NOT NULL columns are
  strings, never \<^verbatim>\<open>None\<close>.
\<close>

definition insert_or_replace :: "clean_record \<Rightarrow> table \<Rightarrow> exec_result" where
  "insert_or_replace r t =
     (if bindable r
      then Executed (filter (\<lambda>row. id' row \<noteq> id' r \<and> email row \<noteq> email r) t @ [r])
      else Raised OverflowError)"

text \<open>
  The loop of \<^verbatim>\<open>load_data\<close>: \<open>t\<close> is the table inside the open transaction,
  \<open>inserted\<close> the counter, \<open>out\<close> the lines printed so far. An exception that is not an
  \<^verbatim>\<open>sqlite3.Error\<close> leaves the loop.
\<close>

fun load_loop ::
  "(clean_record \<Rightarrow> table \<Rightarrow> exec_result) \<Rightarrow> clean_record list \<Rightarrow> table \<Rightarrow> nat \<Rightarrow> event list
     \<Rightarrow> (py_exception + table \<times> nat) \<times> event list" where
  "load_loop exec [] t inserted out = (Inr (t, inserted), out)"
| "load_loop exec (r # rs) t inserted out =
     (case exec r t of
        Executed t' \<Rightarrow> load_loop exec rs t' (Suc inserted) out
      | SqliteError e \<Rightarrow> load_loop exec rs t inserted (out @ [InsertErrorMsg (id' r) e])
      | Raised e \<Rightarrow> (Inl e, out))"

text \<open>
  \<^verbatim>\<open>load_data\<close>, with the engine's answer to the upsert as the parameter \<open>exec\<close>.
  \<^verbatim>\<open>CREATE TABLE IF NOT EXISTS\<close> runs outside a transaction and is durable at once; the
  upserts run in one transaction, which \<^verbatim>\<open>conn.commit()\<close> makes durable after the loop. When
  an exception leaves the loop the commit is not reached, and the transaction is rolled
  back when the connection goes away.
\<close>

definition create_table_if_not_exists :: "database \<Rightarrow> table" where
  "create_table_if_not_exists db = (case db of None \<Rightarrow> [] | Some t \<Rightarrow> t)"

definition load_data_with ::
  "(clean_record \<Rightarrow> table \<Rightarrow> exec_result) \<Rightarrow> clean_record list \<Rightarrow> database
     \<Rightarrow> (py_exception + unit) \<times> database \<times> event list" where
  "load_data_with exec data db =
     (let created = create_table_if_not_exists db
      in (case load_loop exec data created 0 [LoadingMsg] of
            (Inl e, out) \<Rightarrow> (Inl e, Some created, out)
          | (Inr (t, inserted), out) \<Rightarrow> (Inr (), Some t, out @ [LoadedCount inserted])))"

definition load_data ::
  "clean_record list \<Rightarrow> database \<Rightarrow> (py_exception + unit) \<times> database \<times> event list" where
  "load_data data db = load_data_with insert_or_replace data db"

subsection \<open>The pipeline\<close>

definition run_etl_pipeline ::
  "filesystem \<Rightarrow> (nat \<Rightarrow> string) \<Rightarrow> string \<Rightarrow> database
     \<Rightarrow> (py_exception + unit) \<times> database \<times> event list" where
  "run_etl_pipeline fs clock source_file db =
     (case extract_data fs source_file of
        (Inl e, out1) \<Rightarrow> (Inl e, db, StartingPipeline # out1)
      | (Inr raw_data, out1) \<Rightarrow>
          if raw_data = [] then (Inr (), db, StartingPipeline # out1 @ [NoDataExiting])
          else
            (case transform_data clock raw_data of
               (Inl e, out2) \<Rightarrow> (Inl e, db, StartingPipeline # out1 @ out2)
             | (Inr clean_data, out2) \<Rightarrow>
                 (case load_data clean_data db of
                    (Inl e, db', out3) \<Rightarrow> (Inl e, db', StartingPipeline # out1 @ out2 @ out3)
                  | (Inr u, db', out3) \<Rightarrow>
                      (Inr (), db', StartingPipeline # out1 @ out2 @ out3 @ [PipelineCompleted]))))"

section \<open>Reference notions for the properties\<close>

subsection \<open>Rows and their normalized fields\<close>

text \<open>
  The text of a field as \<^verbatim>\<open>record.get(key, '')\<close> reads it, the normalized email of a row,
  and the validation rule stated on the row.
\<close>

definition text_field :: "raw_record \<Rightarrow> string \<Rightarrow> string" where
  "text_field r k = (case dict_get r k (PyStr []) of PyStr s \<Rightarrow> s | _ \<Rightarrow> [])"

definition normalized_email :: "raw_record \<Rightarrow> string" where
  "normalized_email r = str_lower (str_strip (text_field r ''email''))"

definition valid_email :: "raw_record \<Rightarrow> bool" where
  "valid_email r = (normalized_email r \<noteq> [] \<and> CHR ''@'' \<in> set (normalized_email r))"

definition is_str :: "py_value \<Rightarrow> bool" where
  "is_str v = (case v of PyStr s \<Rightarrow> True | _ \<Rightarrow> False)"

definition string_fields :: "raw_record \<Rightarrow> bool" where
  "string_fields r = list_all (\<lambda>(k, v). is_str v) r"

definition numbers_parse :: "raw_record \<Rightarrow> bool" where
  "numbers_parse r =
     ((case map_of r (Some ''id'') of Some (PyStr s) \<Rightarrow> int_of_str s \<noteq> None | _ \<Rightarrow> True) \<and>
      (case map_of r (Some ''age'') of Some (PyStr s) \<Rightarrow> s = [] \<or> int_of_str s \<noteq> None | _ \<Rightarrow> True))"

definition transform_each :: "(nat \<Rightarrow> string) \<Rightarrow> nat \<Rightarrow> raw_record list \<Rightarrow> (py_exception + clean_record) list" where
  "transform_each clock i rs = map (\<lambda>(j, r). transform_record (clock j) r) (enumerate i rs)"

definition str_record :: "(string \<times> string) list \<Rightarrow> raw_record" where
  \<comment> \<open>a row all of whose values are strings\<close>
  "str_record kvs = map (\<lambda>(k, v). (Some k, PyStr v)) kvs"

definition fixed_clock :: "string \<Rightarrow> nat \<Rightarrow> string" where
  \<comment> \<open>the date does not change during the run\<close>
  "fixed_clock today i = today"

subsection \<open>Upserts\<close>

text \<open>
  The answers of the engine when every record is attempted in order, a failed statement
  leaving the table as it was; the table after all of them; the lines printed for the
  failures.
\<close>

definition is_raised :: "exec_result \<Rightarrow> bool" where
  "is_raised a = (case a of Raised e \<Rightarrow> True | _ \<Rightarrow> False)"

definition is_executed :: "exec_result \<Rightarrow> bool" where
  "is_executed a = (case a of Executed t \<Rightarrow> True | _ \<Rightarrow> False)"

definition table_after_answer :: "exec_result \<Rightarrow> table \<Rightarrow> table" where
  "table_after_answer a t = (case a of Executed t' \<Rightarrow> t' | _ \<Rightarrow> t)"

fun answers :: "(clean_record \<Rightarrow> table \<Rightarrow> exec_result) \<Rightarrow> clean_record list \<Rightarrow> table \<Rightarrow> exec_result list" where
  "answers exec [] t = []"
| "answers exec (r # rs) t = exec r t # answers exec rs (table_after_answer (exec r t) t)"

fun table_after :: "(clean_record \<Rightarrow> table \<Rightarrow> exec_result) \<Rightarrow> clean_record list \<Rightarrow> table \<Rightarrow> table" where
  "table_after exec [] t = t"
| "table_after exec (r # rs) t = table_after exec rs (table_after_answer (exec r t) t)"

fun error_lines :: "clean_record list \<Rightarrow> exec_result list \<Rightarrow> event list" where
  "error_lines (r # rs) (SqliteError e # as) = InsertErrorMsg (id' r) e # error_lines rs as"
| "error_lines (r # rs) (a # as) = error_lines rs as"
| "error_lines rs as = []"

definition conflicts :: "clean_record \<Rightarrow> clean_record \<Rightarrow> bool" where
  "conflicts r row = (id' row = id' r \<or> email row = email r)"

definition replaced_by :: "clean_record list \<Rightarrow> clean_record \<Rightarrow> bool" where
  "replaced_by rs row = list_ex (\<lambda>r. conflicts r row) rs"

fun survivors :: "clean_record list \<Rightarrow> clean_record list" where
  "survivors [] = []"
| "survivors (r # rs) = (if replaced_by rs r then survivors rs else r # survivors rs)"

definition upsert_all :: "clean_record list \<Rightarrow> table \<Rightarrow> table" where
  "upsert_all rs t = filter (\<lambda>row. \<not> replaced_by rs row) t @ survivors rs"

definition table_rows :: "database \<Rightarrow> table" where
  "table_rows db = (case db of None \<Rightarrow> [] | Some t \<Rightarrow> t)"

definition failing_on :: "int list \<Rightarrow> clean_record \<Rightarrow> table \<Rightarrow> exec_result" where
  \<comment> \<open>an engine that answers the upserts of the listed ids with an error\<close>
  "failing_on ids r t =
     (if id' r \<in> set ids then SqliteError ''disk I/O error'' else insert_or_replace r t)"

subsection \<open>Sample inputs\<close>

text \<open>
  A source with one valid and one invalid row, a source whose only row is invalid, a
  source with a header and no row; every other path names no file.
\<close>

definition users_csv :: "string list list" where
  "users_csv =
     [[''id'', ''name'', ''email'', ''age'', ''city''],
      [''1'', '' alice '', '' A@B.com '', ''25'', ''ny''],
      [''2'', ''bob'', ''not-an-email'', '''', ''sf'']]"

definition rejects_csv :: "string list list" where
  "rejects_csv =
     [[''id'', ''name'', ''email''],
      [''7'', ''carol'', ''carol.example.com'']]"

definition header_only_csv :: "string list list" where
  "header_only_csv = [[''id'', ''name'', ''email'']]"

definition sample_fs :: filesystem where
  "sample_fs path =
     (if path = ''users.csv'' then TextFile users_csv
      else if path = ''rejects.csv'' then TextFile rejects_csv
      else if path = ''header_only.csv'' then TextFile header_only_csv
      else NoSuchFile)"

definition alice_row :: clean_record where
  "alice_row = \<lparr>id' = 1, name = ''Alice'', email = ''a@b.com'', age = Some 25, city = ''Ny'',
                 processed_date = ''2024-05-01''\<rparr>"

text \<open>
  A batch whose second row has an id that is not a number, a batch whose second row has an
  age that is not a number, and rows of the table: two with
  the same id, one with the email of another under a different id, one whose id does not
  fit 64 bits.
\<close>

definition bad_id_batch :: "raw_record list" where
  "bad_id_batch =
     [str_record [(''id'', ''1''), (''name'', ''alice''), (''email'', ''a@b.com'')],
      str_record [(''id'', ''x1''), (''name'', ''bob''), (''email'', ''bob@example.com'')]]"

definition bad_age_batch :: "raw_record list" where
  "bad_age_batch =
     [str_record [(''id'', ''1''), (''name'', ''alice''), (''email'', ''a@b.com'')],
      str_record [(''id'', ''2''), (''name'', ''bob''), (''email'', ''bob@example.com''),
                  (''age'', ''old'')]]"

definition ann_row :: clean_record where
  "ann_row = \<lparr>id' = 1, name = ''Ann'', email = ''ann@example.com'', age = None, city = ''Rome'',
               processed_date = ''2024-05-01''\<rparr>"

definition ben_row :: clean_record where
  "ben_row = \<lparr>id' = 1, name = ''Ben'', email = ''ben@example.com'', age = Some 40, city = ''Oslo'',
               processed_date = ''2024-05-01''\<rparr>"

definition ben_again_row :: clean_record where
  "ben_again_row = \<lparr>id' = 2, name = ''Ben'', email = ''ben@example.com'', age = Some 40,
                     city = ''Oslo'', processed_date = ''2024-05-01''\<rparr>"

definition carol_row :: clean_record where
  "carol_row = \<lparr>id' = 3, name = ''Carol'', email = ''carol@example.com'', age = None,
                 city = ''Lima'', processed_date = ''2024-05-01''\<rparr>"

definition huge_id_row :: clean_record where
  "huge_id_row = \<lparr>id' = 9223372036854775808, name = ''Dan'', email = ''dan@example.com'',
                   age = None, city = ''Kyiv'', processed_date = ''2024-05-01''\<rparr>"

section \<open>Properties\<close>

subsection \<open>The transformer\<close>

lemma transform_each_Nil: "transform_each clock i [] = []"
  by (simp add: transform_each_def)

lemma transform_each_Cons:
  "transform_each clock i (r # rs) = transform_record (clock i) r # transform_each clock (Suc i) rs"
  by (simp add: transform_each_def)

lemma and_then_Inr: "and_then x f = Inr c \<longleftrightarrow> (\<exists>a. x = Inr a \<and> f a = Inr c)"
  by (cases x) (simp_all add: and_then_def)

lemma and_then_simps: "and_then (Inr a) f = f a" "and_then (Inl e) f = Inl e"
  by (simp_all add: and_then_def)

lemma py_strip_Inr: "py_strip v = Inr s \<longleftrightarrow> (\<exists>t. v = PyStr t \<and> s = str_strip t)"
  by (cases v) (auto simp: py_strip_def)

lemma transform_record_Inr:
  assumes "transform_record d r = Inr c"
  obtains i n m a ci where
    "py_int (dict_get r ''id'' (PyInt 0)) = Inr i"
    "dict_get r ''name'' (PyStr []) = PyStr n"
    "dict_get r ''email'' (PyStr []) = PyStr m"
    "dict_get r ''city'' (PyStr []) = PyStr ci"
    "c = \<lparr>id' = i, name = str_title (str_strip n), email = str_lower (str_strip m), age = a,
           city = str_title (str_strip ci), processed_date = d\<rparr>"
  using assms unfolding transform_record_def and_then_Inr py_strip_Inr
  by auto

lemma transform_record_fields:
  assumes "transform_record d r = Inr c"
  shows "name c = str_title (str_strip (text_field r ''name''))"
    and "email c = normalized_email r"
    and "city c = str_title (str_strip (text_field r ''city''))"
    and "processed_date c = d"
  using assms
  by (auto elim!: transform_record_Inr simp: text_field_def normalized_email_def)

lemma email_ok_valid: "transform_record d r = Inr c \<Longrightarrow> email_ok c = valid_email r"
  by (simp add: email_ok_def valid_email_def transform_record_fields(2))

lemma string_fields_lookup:
  "string_fields r \<Longrightarrow> map_of r k = Some v \<Longrightarrow> \<exists>s. v = PyStr s"
  by (induction r) (auto simp: string_fields_def is_str_def split: if_splits py_value.splits)

lemma string_fields_get:
  "string_fields r \<Longrightarrow> \<exists>s. dict_get r k (PyStr d) = PyStr s"
  by (auto simp: dict_get_def split: option.splits dest: string_fields_lookup)

lemma transform_record_strings:
  assumes "string_fields r"
  shows "(numbers_parse r \<longrightarrow> (\<exists>c. transform_record d r = Inr c)) \<and>
         (\<not> numbers_parse r \<longrightarrow> transform_record d r = Inl ValueError)"
proof -
  obtain n where n: "dict_get r ''name'' (PyStr []) = PyStr n"
    using string_fields_get [OF assms] by blast
  obtain m where m: "dict_get r ''email'' (PyStr []) = PyStr m"
    using string_fields_get [OF assms] by blast
  obtain c where c: "dict_get r ''city'' (PyStr []) = PyStr c"
    using string_fields_get [OF assms] by blast
  have id_cases: "(\<exists>s. dict_get r ''id'' (PyInt 0) = PyStr s \<and> map_of r (Some ''id'') = Some (PyStr s))
      \<or> (dict_get r ''id'' (PyInt 0) = PyInt 0 \<and> map_of r (Some ''id'') = None)"
    using string_fields_lookup [OF assms, of "Some ''id''"]
    by (auto simp: dict_get_def split: option.splits)
  have age_cases: "(\<exists>s. dict_get r ''age'' PyNone = PyStr s \<and> dict_get r ''age'' (PyInt 0) = PyStr s
        \<and> map_of r (Some ''age'') = Some (PyStr s))
      \<or> (dict_get r ''age'' PyNone = PyNone \<and> map_of r (Some ''age'') = None)"
    using string_fields_lookup [OF assms, of "Some ''age''"]
    by (auto simp: dict_get_def split: option.splits)
  from id_cases age_cases show ?thesis
    by (auto simp: transform_record_def and_then_simps py_strip_def py_int_def n m c
        numbers_parse_def truthy_def split: option.splits)
qed

lemma transform_loop_returns:
  "transform_each clock i rs = map Inr cs \<Longrightarrow>
   transform_loop clock i rs acc out =
     (Inr (acc @ filter email_ok cs),
      out @ map SkippingInvalid (filter (\<lambda>r. \<not> valid_email r) rs))"
proof (induction rs arbitrary: i cs acc out)
  case Nil
  then show ?case by (simp add: transform_each_Nil)
next
  case (Cons r rs)
  from Cons.prems obtain c cs' where cs: "cs = c # cs'"
    and c: "transform_record (clock i) r = Inr c"
    and rest: "transform_each clock (Suc i) rs = map Inr cs'"
    by (cases cs) (auto simp: transform_each_Cons)
  show ?case
    using Cons.IH [OF rest] c email_ok_valid [OF c] by (simp add: cs)
qed

lemma transform_loop_Inr:
  "fst (transform_loop clock i rs acc out) = Inr res \<Longrightarrow>
   \<exists>cs. transform_each clock i rs = map Inr cs"
proof (induction rs arbitrary: i acc out)
  case Nil
  then show ?case by (simp add: transform_each_Nil)
next
  case (Cons r rs)
  from Cons.prems obtain c where c: "transform_record (clock i) r = Inr c"
    by (cases "transform_record (clock i) r") auto
  from Cons.prems c obtain cs where "transform_each clock (Suc i) rs = map Inr cs"
    using Cons.IH by (auto split: if_splits)
  then have "transform_each clock i (r # rs) = map Inr (c # cs)"
    by (simp add: transform_each_Cons c)
  then show ?case by blast
qed

lemma transform_loop_raises:
  "list_all string_fields rs \<Longrightarrow> \<not> list_all numbers_parse rs \<Longrightarrow>
   fst (transform_loop clock i rs acc out) = Inl ValueError"
proof (induction rs arbitrary: i acc out)
  case Nil
  then show ?case by simp
next
  case (Cons r rs)
  then show ?case
    using transform_record_strings [of r "clock i"]
    by (cases "numbers_parse r") (auto split: sum.splits)
qed

lemma transform_each_strings:
  "list_all string_fields rs \<Longrightarrow> list_all numbers_parse rs \<Longrightarrow>
   \<exists>cs. transform_each clock i rs = map Inr cs"
proof (induction rs arbitrary: i)
  case Nil
  then show ?case by (simp add: transform_each_Nil)
next
  case (Cons r rs)
  from Cons.prems obtain c where c: "transform_record (clock i) r = Inr c"
    using transform_record_strings [of r "clock i"] by auto
  from Cons.prems obtain cs where cs: "transform_each clock (Suc i) rs = map Inr cs"
    using Cons.IH [of "Suc i"] by auto
  from c cs have "transform_each clock i (r # rs) = map Inr (c # cs)"
    by (simp add: transform_each_Cons)
  then show ?case by blast
qed

subsection \<open>The loader\<close>

lemma load_loop_answers:
  "list_all (\<lambda>a. \<not> is_raised a) (answers exec rs t) \<Longrightarrow>
   load_loop exec rs t n out =
     (Inr (table_after exec rs t, n + length (filter is_executed (answers exec rs t))),
      out @ error_lines rs (answers exec rs t))"
proof (induction rs arbitrary: t n out)
  case Nil
  then show ?case by simp
next
  case (Cons r rs)
  show ?case
  proof (cases "exec r t")
    case (Executed t')
    with Cons.prems have "list_all (\<lambda>a. \<not> is_raised a) (answers exec rs t')"
      by (simp add: table_after_answer_def)
    from Cons.IH [OF this] Executed show ?thesis
      by (simp add: table_after_answer_def is_executed_def)
  next
    case (SqliteError e)
    with Cons.prems have "list_all (\<lambda>a. \<not> is_raised a) (answers exec rs t)"
      by (simp add: table_after_answer_def)
    from Cons.IH [OF this] SqliteError show ?thesis
      by (simp add: table_after_answer_def is_executed_def)
  next
    case (Raised e)
    with Cons.prems show ?thesis by (simp add: is_raised_def)
  qed
qed

lemma length_answers: "length (answers exec rs t) = length rs"
  by (induction rs arbitrary: t) simp_all

lemma replaced_by_Cons: "replaced_by (r # rs) row \<longleftrightarrow> conflicts r row \<or> replaced_by rs row"
  by (simp add: replaced_by_def)

lemma replaced_by_iff: "replaced_by rs row \<longleftrightarrow> (\<exists>r\<in>set rs. conflicts r row)"
  by (simp add: replaced_by_def list_ex_iff)

lemma upsert_all_Cons:
  "upsert_all (r # rs) t = upsert_all rs (filter (\<lambda>row. id' row \<noteq> id' r \<and> email row \<noteq> email r) t @ [r])"
proof -
  have "filter (\<lambda>row. \<not> replaced_by (r # rs) row) t =
        filter (\<lambda>row. \<not> replaced_by rs row) (filter (\<lambda>row. id' row \<noteq> id' r \<and> email row \<noteq> email r) t)"
    by (auto simp: replaced_by_Cons conflicts_def intro: filter_cong)
  then show ?thesis
    by (simp add: upsert_all_def)
qed

lemma load_loop_sqlite:
  "list_all bindable rs \<Longrightarrow>
   load_loop insert_or_replace rs t n out = (Inr (upsert_all rs t, n + length rs), out)"
proof (induction rs arbitrary: t n)
  case Nil
  then show ?case by (simp add: upsert_all_def replaced_by_def)
next
  case (Cons r rs)
  then show ?case by (simp add: insert_or_replace_def upsert_all_Cons)
qed

lemma load_loop_overflow:
  "\<not> list_all bindable rs \<Longrightarrow>
   load_loop insert_or_replace rs t n out = (Inl OverflowError, out)"
proof (induction rs arbitrary: t n)
  case Nil
  then show ?case by simp
next
  case (Cons r rs)
  then show ?case by (cases "bindable r") (simp_all add: insert_or_replace_def)
qed

lemma set_survivors: "set (survivors rs) \<subseteq> set rs"
  by (induction rs) auto

lemma survivors_replaced: "filter (\<lambda>row. \<not> replaced_by rs row) (survivors rs) = []"
proof -
  have "\<forall>row\<in>set (survivors rs). replaced_by rs row"
    using set_survivors [of rs] by (auto simp: replaced_by_iff conflicts_def)
  then show ?thesis by (simp add: filter_empty_conv)
qed

lemma upsert_all_idem: "upsert_all rs (upsert_all rs t) = upsert_all rs t"
  by (simp add: upsert_all_def survivors_replaced)

lemma survivors_append:
  "survivors (xs @ zs) = filter (\<lambda>row. \<not> replaced_by zs row) (survivors xs) @ survivors zs"
  by (induction xs) (auto simp: replaced_by_iff)

lemma load_data_sqlite:
  "load_data data db =
     (if list_all bindable data
      then (Inr (), Some (upsert_all data (create_table_if_not_exists db)),
            [LoadingMsg, LoadedCount (length data)])
      else (Inl OverflowError, Some (create_table_if_not_exists db), [LoadingMsg]))"
  by (simp add: load_data_def load_data_with_def load_loop_sqlite load_loop_overflow)

lemma last_with_id:
  assumes "\<forall>y\<in>set ys. \<not> conflicts y r"
  shows "filter (\<lambda>row. id' row = id' r) (upsert_all (xs @ r # ys) t) = [r]"
proof -
  let ?k = "\<lambda>row. id' row = id' r"
  have killed: "?k row \<Longrightarrow> replaced_by (xs @ r # ys) row" for row
    by (auto simp: replaced_by_iff conflicts_def)
  have killed': "?k row \<Longrightarrow> replaced_by (r # ys) row" for row
    by (auto simp: replaced_by_iff conflicts_def)
  have a: "filter ?k (filter (\<lambda>row. \<not> replaced_by (xs @ r # ys) row) t) = []"
    using killed by (auto simp: filter_empty_conv)
  have b: "filter ?k (filter (\<lambda>row. \<not> replaced_by (r # ys) row) (survivors xs)) = []"
    using killed' by (auto simp: filter_empty_conv)
  have nr: "\<not> replaced_by ys r"
    using assms by (simp add: replaced_by_iff)
  have "\<forall>y\<in>set ys. \<not> ?k y"
    using assms by (auto simp: conflicts_def)
  then have c: "filter ?k (survivors ys) = []"
    using set_survivors [of ys] by (auto simp: filter_empty_conv)
  show ?thesis
    using a b c nr by (simp add: upsert_all_def survivors_append)
qed

subsection \<open>The extractor\<close>





subsection \<open>The pipeline\<close>

text \<open>
  C6. When the source file does not exist, \<^verbatim>\<open>run_etl_pipeline\<close> returns after the
  extraction: the database is what it was before the run, and nothing of \<^verbatim>\<open>load_data\<close> is
  printed. The same holds whenever the extracted batch is empty.
\<close>

theorem missing_source_leaves_database:
  "(fs source_file = NoSuchFile \<longrightarrow>
      run_etl_pipeline fs clock source_file db =
        (Inr (), db, [StartingPipeline, ExtractingFrom source_file,
                      FileNotFoundMsg source_file, NoDataExiting])) \<and>
   (fst (extract_data fs source_file) = Inr [] \<longrightarrow>
      fst (snd (run_etl_pipeline fs clock source_file db)) = db \<and>
      LoadingMsg \<notin> set (snd (snd (run_etl_pipeline fs clock source_file db))))"
  by (auto simp: run_etl_pipeline_def extract_data_def Let_def split: source_file.splits)

theorem missing_source_leaves_database_witness:
  "run_etl_pipeline sample_fs (fixed_clock ''2024-05-01'') ''nothing.csv'' (Some [alice_row]) =
     (Inr (), Some [alice_row],
      [StartingPipeline, ExtractingFrom ''nothing.csv'', FileNotFoundMsg ''nothing.csv'',
       NoDataExiting]) \<and>
   fst (snd (run_etl_pipeline sample_fs (fixed_clock ''2024-05-01'') ''header_only.csv'' None)) = None"
proof -
  have a: "sample_fs ''nothing.csv'' = NoSuchFile"
    by (simp add: sample_fs_def)
  have b: "fst (extract_data sample_fs ''header_only.csv'') = Inr []"
    by (simp add: sample_fs_def extract_data_def dict_reader_def header_only_csv_def)
  show ?thesis
    using a b missing_source_leaves_database [of sample_fs "''nothing.csv''"]
      missing_source_leaves_database [of sample_fs "''header_only.csv''"]
    by blast
qed

subsection \<open>The output of the transformer and the rows of the table\<close>

lemma transform_data_of_each:
  assumes "transform_each clock 0 data = map Inr cs"
  shows "transform_data clock data =
     (Inr (filter email_ok cs),
      TransformingMsg # map SkippingInvalid (filter (\<lambda>r. \<not> valid_email r) data) @
        [TransformedCount (length (filter email_ok cs))])"
  by (simp add: transform_data_def transform_loop_returns [OF assms])

lemma transform_data_Inr:
  assumes "fst (transform_data clock data) = Inr out"
  shows "\<exists>cs. transform_each clock 0 data = map Inr cs \<and> out = filter email_ok cs"
proof -
  from assms obtain res where "fst (transform_loop clock 0 data [] [TransformingMsg]) = Inr res"
    by (auto simp: transform_data_def split: prod.splits sum.splits)
  then obtain cs where cs: "transform_each clock 0 data = map Inr cs"
    using transform_loop_Inr by blast
  with assms have "out = filter email_ok cs"
    by (simp add: transform_data_of_each)
  with cs show ?thesis by blast
qed

lemma transform_each_emails:
  "transform_each clock i rs = map Inr cs \<Longrightarrow> map email cs = map normalized_email rs"
proof (induction rs arbitrary: i cs)
  case Nil
  then show ?case by (simp add: transform_each_Nil)
next
  case (Cons r rs)
  from Cons.prems obtain c cs' where cs: "cs = c # cs'"
    and c: "transform_record (clock i) r = Inr c"
    and rest: "transform_each clock (Suc i) rs = map Inr cs'"
    by (cases cs) (auto simp: transform_each_Cons)
  show ?case
    using Cons.IH [OF rest] transform_record_fields(2) [OF c] by (simp add: cs)
qed

lemma set_upsert_all: "set (upsert_all rs t) \<subseteq> set t \<union> set rs"
  using set_survivors [of rs] by (auto simp: upsert_all_def)

lemma table_rows_load_data:
  "set (table_rows (fst (snd (load_data data db)))) \<subseteq> set (table_rows db) \<union> set data"
  using set_upsert_all [of data "create_table_if_not_exists db"]
  by (auto simp: load_data_sqlite table_rows_def create_table_if_not_exists_def
      split: option.splits)

lemma run_etl_pipeline_rows:
  assumes "row \<in> set (table_rows (fst (snd (run_etl_pipeline fs clock source_file db))))"
  shows "row \<in> set (table_rows db) \<or> email_ok row"
proof (cases "extract_data fs source_file")
  case (Pair res1 out1)
  show ?thesis
  proof (cases res1)
    case (Inl e)
    with Pair assms show ?thesis by (simp add: run_etl_pipeline_def)
  next
    case (Inr raw_data)
    show ?thesis
    proof (cases "raw_data = []")
      case True
      with Pair Inr assms show ?thesis by (simp add: run_etl_pipeline_def)
    next
      case False
      show ?thesis
      proof (cases "transform_data clock raw_data")
        case tr: (Pair res2 out2)
        show ?thesis
        proof (cases res2)
          case (Inl e)
          with Pair Inr False tr assms show ?thesis by (simp add: run_etl_pipeline_def)
        next
          case clean: (Inr clean_data)
          from tr clean have "fst (transform_data clock raw_data) = Inr clean_data" by simp
          then obtain cs where "clean_data = filter email_ok cs"
            using transform_data_Inr by blast
          then have ok: "\<forall>c\<in>set clean_data. email_ok c" by simp
          have "fst (snd (run_etl_pipeline fs clock source_file db)) =
                fst (snd (load_data clean_data db))"
            using Pair Inr False tr clean
            by (simp add: run_etl_pipeline_def split: prod.splits sum.splits)
          with assms have "row \<in> set (table_rows db) \<union> set clean_data"
            using table_rows_load_data [of clean_data db] by auto
          with ok show ?thesis by auto
        qed
      qed
    qed
  qed
qed

lemma run_users_csv:
  "run_etl_pipeline sample_fs (fixed_clock ''2024-05-01'') ''users.csv'' None =
     (Inr (), Some [alice_row],
      [StartingPipeline, ExtractingFrom ''users.csv'', ExtractedCount 2, TransformingMsg,
       SkippingInvalid (str_record [(''id'', ''2''), (''name'', ''bob''),
          (''email'', ''not-an-email''), (''age'', ''''), (''city'', ''sf'')]),
       TransformedCount 1, LoadingMsg, LoadedCount 1, PipelineCompleted])"
  by code_simp

text \<open>
  A batch whose first row has a valid email and whose second row has the age \<^verbatim>\<open>old\<close>: the
  run of \<^verbatim>\<open>transform_data\<close> ends with the exception, so the first row is in no output.
\<close>

theorem valid_row_lost_when_batch_raises:
  "str_record [(''id'', ''1''), (''name'', ''alice''), (''email'', ''a@b.com'')] \<in> set bad_age_batch \<and>
   normalized_email (str_record [(''id'', ''1''), (''name'', ''alice''), (''email'', ''a@b.com'')]) =
     ''a@b.com'' \<and>
   valid_email (str_record [(''id'', ''1''), (''name'', ''alice''), (''email'', ''a@b.com'')]) \<and>
   transform_data (fixed_clock ''2024-05-01'') bad_age_batch = (Inl ValueError, [TransformingMsg])"
  by code_simp

text \<open>
  C3. \<^verbatim>\<open>transform_data\<close> returns exactly when the conversions of every record succeed (for
  rows of strings: when every id that is present and every non-empty age parses), and its
  output is then made of exactly the records, in the order of the input, whose normalized
  (trimmed, lowercased) email is non-empty and contains the character \<^verbatim>\<open>@\<close>. When a
  conversion raises there is no output. After a run of the pipeline every row of the table
  that was not there before the run has such an email: a row whose normalized email is
  empty or has no \<^verbatim>\<open>@\<close> is never written.
\<close>

theorem kept_iff_email_valid:
  "(fst (transform_data clock data) = Inr out \<longleftrightarrow>
      (\<exists>cs. transform_each clock 0 data = map Inr cs \<and>
            out = filter (\<lambda>c. email c \<noteq> [] \<and> CHR ''@'' \<in> set (email c)) cs)) \<and>
   (transform_each clock 0 data = map Inr cs \<longrightarrow> map email cs = map normalized_email data) \<and>
   (list_all string_fields data \<and> list_all numbers_parse data \<longrightarrow>
      (\<exists>cs. transform_each clock 0 data = map Inr cs)) \<and>
   (\<forall>row \<in> set (table_rows (fst (snd (run_etl_pipeline fs clock source_file db)))).
      row \<in> set (table_rows db) \<or> (email row \<noteq> [] \<and> CHR ''@'' \<in> set (email row)))"
proof (intro conjI impI ballI)
  have ok: "email_ok = (\<lambda>c. email c \<noteq> [] \<and> CHR ''@'' \<in> set (email c))"
    by (simp add: email_ok_def fun_eq_iff)
  show "fst (transform_data clock data) = Inr out \<longleftrightarrow>
      (\<exists>cs. transform_each clock 0 data = map Inr cs \<and>
            out = filter (\<lambda>c. email c \<noteq> [] \<and> CHR ''@'' \<in> set (email c)) cs)"
  proof
    assume "fst (transform_data clock data) = Inr out"
    from transform_data_Inr [OF this] show
      "\<exists>cs. transform_each clock 0 data = map Inr cs \<and>
            out = filter (\<lambda>c. email c \<noteq> [] \<and> CHR ''@'' \<in> set (email c)) cs"
      by (simp add: ok)
  next
    assume "\<exists>cs. transform_each clock 0 data = map Inr cs \<and>
            out = filter (\<lambda>c. email c \<noteq> [] \<and> CHR ''@'' \<in> set (email c)) cs"
    then obtain cs where cs: "transform_each clock 0 data = map Inr cs"
      and out: "out = filter email_ok cs"
      by (auto simp: ok)
    show "fst (transform_data clock data) = Inr out"
      by (simp add: transform_data_of_each [OF cs] out)
  qed
next
  assume "transform_each clock 0 data = map Inr cs"
  then show "map email cs = map normalized_email data"
    by (rule transform_each_emails)
next
  assume "list_all string_fields data \<and> list_all numbers_parse data"
  then show "\<exists>cs. transform_each clock 0 data = map Inr cs"
    using transform_each_strings by blast
next
  fix row
  assume "row \<in> set (table_rows (fst (snd (run_etl_pipeline fs clock source_file db))))"
  from run_etl_pipeline_rows [OF this]
  show "row \<in> set (table_rows db) \<or> (email row \<noteq> [] \<and> CHR ''@'' \<in> set (email row))"
    by (simp add: email_ok_def)
qed

theorem kept_iff_email_valid_witness:
  "list_all string_fields (dict_reader users_csv) \<and>
   list_all numbers_parse (dict_reader users_csv) \<and>
   (\<exists>cs. transform_each (fixed_clock ''2024-05-01'') 0 (dict_reader users_csv) = map Inr cs \<and>
         map email cs = map normalized_email (dict_reader users_csv) \<and>
         fst (transform_data (fixed_clock ''2024-05-01'') (dict_reader users_csv)) =
           Inr (filter (\<lambda>c. email c \<noteq> [] \<and> CHR ''@'' \<in> set (email c)) cs)) \<and>
   fst (transform_data (fixed_clock ''2024-05-01'') (dict_reader users_csv)) = Inr [alice_row] \<and>
   map normalized_email (dict_reader users_csv) = [''a@b.com'', ''not-an-email''] \<and>
   alice_row \<in> set (table_rows (fst (snd (run_etl_pipeline sample_fs (fixed_clock ''2024-05-01'')
                                              ''users.csv'' None)))) \<and>
   email alice_row = ''a@b.com''"
proof -
  let ?clock = "fixed_clock ''2024-05-01''"
  let ?data = "dict_reader users_csv"
  have a: "list_all string_fields ?data \<and> list_all numbers_parse ?data"
    by code_simp
  then obtain cs where cs: "transform_each ?clock 0 ?data = map Inr cs"
    using kept_iff_email_valid [of ?clock ?data] by blast
  have em: "map email cs = map normalized_email ?data"
    using cs kept_iff_email_valid [of ?clock ?data _ cs] by blast
  have ret: "fst (transform_data ?clock ?data) =
      Inr (filter (\<lambda>c. email c \<noteq> [] \<and> CHR ''@'' \<in> set (email c)) cs)"
    using cs
      kept_iff_email_valid [of ?clock ?data
        "filter (\<lambda>c. email c \<noteq> [] \<and> CHR ''@'' \<in> set (email c)) cs"]
    by blast
  have b: "fst (transform_data ?clock ?data) = Inr [alice_row]"
    by code_simp
  have c: "map normalized_email ?data = [''a@b.com'', ''not-an-email'']"
    by code_simp
  have d: "alice_row \<in> set (table_rows (fst (snd (run_etl_pipeline sample_fs ?clock
      ''users.csv'' None))))"
    by (simp add: run_users_csv table_rows_def)
  have e: "email alice_row = ''a@b.com''"
    by (simp add: alice_row_def)
  have "row \<in> set (table_rows None) \<or> (email row \<noteq> [] \<and> CHR ''@'' \<in> set (email row))"
    if "row \<in> set (table_rows (fst (snd (run_etl_pipeline sample_fs ?clock ''users.csv'' None))))"
    for row
    using that kept_iff_email_valid [of ?clock ?data _ _ sample_fs "''users.csv''" None] by blast
  show ?thesis
    using a cs em ret b c d e by blast
qed

subsection \<open>Running the pipeline again\<close>

lemma load_data_twice:
  "load_data data (fst (snd (load_data data db))) = load_data data db"
  by (simp add: load_data_sqlite create_table_if_not_exists_def upsert_all_idem)

lemma run_etl_pipeline_twice:
  "run_etl_pipeline fs clock source_file
     (fst (snd (run_etl_pipeline fs clock source_file db))) =
   run_etl_pipeline fs clock source_file db"
proof (cases "extract_data fs source_file")
  case (Pair res1 out1)
  show ?thesis
  proof (cases res1)
    case (Inl e)
    with Pair show ?thesis by (simp add: run_etl_pipeline_def)
  next
    case (Inr raw_data)
    show ?thesis
    proof (cases "raw_data = []")
      case True
      with Pair Inr show ?thesis by (simp add: run_etl_pipeline_def)
    next
      case False
      show ?thesis
      proof (cases "transform_data clock raw_data")
        case tr: (Pair res2 out2)
        show ?thesis
        proof (cases res2)
          case (Inl e)
          with Pair Inr False tr show ?thesis by (simp add: run_etl_pipeline_def)
        next
          case clean: (Inr clean_data)
          have db': "fst (snd (run_etl_pipeline fs clock source_file db)) =
                fst (snd (load_data clean_data db))"
            using Pair Inr False tr clean
            by (simp add: run_etl_pipeline_def split: prod.splits sum.splits)
          have run: "run_etl_pipeline fs clock source_file db' =
                (case load_data clean_data db' of
                    (Inl e, db'', out3) \<Rightarrow> (Inl e, db'', StartingPipeline # out1 @ out2 @ out3)
                  | (Inr u, db'', out3) \<Rightarrow>
                      (Inr (), db'', StartingPipeline # out1 @ out2 @ out3 @ [PipelineCompleted]))"
            for db'
            using Pair Inr False tr clean by (simp add: run_etl_pipeline_def)
          have "run_etl_pipeline fs clock source_file (fst (snd (load_data clean_data db))) =
                run_etl_pipeline fs clock source_file db"
            unfolding run load_data_twice ..
          then show ?thesis
            by (simp only: db')
        qed
      qed
    qed
  qed
qed

text \<open>
  C4. With the transform date held fixed, running the pipeline a second time on the same
  source and the database left by the first run gives the table contents the first run
  gave.
\<close>

theorem pipeline_idempotent:
  "fst (snd (run_etl_pipeline fs (fixed_clock today) source_file
               (fst (snd (run_etl_pipeline fs (fixed_clock today) source_file db))))) =
   fst (snd (run_etl_pipeline fs (fixed_clock today) source_file db))"
  by (simp add: run_etl_pipeline_twice)

theorem pipeline_idempotent_witness:
  "fst (snd (run_etl_pipeline sample_fs (fixed_clock ''2024-05-01'') ''users.csv''
               (fst (snd (run_etl_pipeline sample_fs (fixed_clock ''2024-05-01'') ''users.csv''
                            None))))) =
   Some [alice_row]"
  using pipeline_idempotent [of sample_fs "''2024-05-01''" "''users.csv''" None]
  by (simp add: run_users_csv)

subsection \<open>A batch with no valid record\<close>

text \<open>
  C10. When the source yields at least one record and validation drops every record,
  \<^verbatim>\<open>load_data\<close> is still called with the empty batch: the run ends with the
  \<^verbatim>\<open>users\<close> table in existence (empty when it did not exist before) and a count of 0
  loaded records printed.
\<close>

theorem all_invalid_creates_empty_table:
  assumes "fs source_file = TextFile rows"
    and "dict_reader rows \<noteq> []"
    and "fst (transform_data clock (dict_reader rows)) = Inr []"
  shows "run_etl_pipeline fs clock source_file db =
     (Inr (), Some (create_table_if_not_exists db),
      [StartingPipeline, ExtractingFrom source_file, ExtractedCount (length (dict_reader rows))] @
      snd (transform_data clock (dict_reader rows)) @
      [LoadingMsg, LoadedCount 0, PipelineCompleted]) \<and>
    create_table_if_not_exists None = []"
  using assms
  by (auto simp: run_etl_pipeline_def extract_data_def Let_def load_data_def load_data_with_def
      create_table_if_not_exists_def split: prod.splits sum.splits)

theorem all_invalid_creates_empty_table_witness:
  "sample_fs ''rejects.csv'' = TextFile rejects_csv \<and>
   dict_reader rejects_csv \<noteq> [] \<and>
   fst (transform_data (fixed_clock ''2024-05-01'') (dict_reader rejects_csv)) = Inr [] \<and>
   run_etl_pipeline sample_fs (fixed_clock ''2024-05-01'') ''rejects.csv'' None =
     (Inr (), Some [],
      [StartingPipeline, ExtractingFrom ''rejects.csv'', ExtractedCount 1, TransformingMsg,
       SkippingInvalid (str_record [(''id'', ''7''), (''name'', ''carol''),
          (''email'', ''carol.example.com'')]),
       TransformedCount 0, LoadingMsg, LoadedCount 0, PipelineCompleted])"
proof -
  have a: "sample_fs ''rejects.csv'' = TextFile rejects_csv"
    by (simp add: sample_fs_def)
  have b: "dict_reader rejects_csv \<noteq> []"
    by (simp add: dict_reader_def rejects_csv_def)
  have c: "fst (transform_data (fixed_clock ''2024-05-01'') (dict_reader rejects_csv)) = Inr []"
    by code_simp
  have d: "snd (transform_data (fixed_clock ''2024-05-01'') (dict_reader rejects_csv)) =
      [TransformingMsg,
       SkippingInvalid (str_record [(''id'', ''7''), (''name'', ''carol''),
          (''email'', ''carol.example.com'')]),
       TransformedCount 0]"
    by code_simp
  have e: "length (dict_reader rejects_csv) = 1"
    by (simp add: dict_reader_def rejects_csv_def)
  show ?thesis
    using a b c
      all_invalid_creates_empty_table [of sample_fs "''rejects.csv''" rejects_csv
        "fixed_clock ''2024-05-01''" None]
    by (simp add: d e create_table_if_not_exists_def)
qed

subsection \<open>Conversions that raise\<close>

text \<open>
  A batch whose second row has the id \<^verbatim>\<open>x1\<close>: the exception ends the run of
  \<^verbatim>\<open>transform_data\<close>, and the valid first record is lost with it.
\<close>

theorem bad_id_aborts_batch:
  "list_all string_fields bad_id_batch \<and>
   transform_data (fixed_clock ''2024-05-01'') bad_id_batch = (Inl ValueError, [TransformingMsg])"
  by code_simp

text \<open>
  C1. Take rows whose values are all strings (fields may be absent). When in every row the
  id, if present, and the age, if present and non-empty, parse as integers,
  \<^verbatim>\<open>transform_data\<close> returns: the records with an invalid email are dropped, each drop is
  printed, and the loop runs to the end of the input. When some id or non-empty age does not
  parse, \<^verbatim>\<open>int\<close> raises \<^verbatim>\<open>ValueError\<close>, nothing catches it, and the batch is aborted.
\<close>

theorem transform_data_returns_or_raises:
  assumes "list_all string_fields data"
  shows "(list_all numbers_parse data \<longrightarrow>
            (\<exists>cs. transform_each clock 0 data = map Inr cs \<and>
                  transform_data clock data =
                    (Inr (filter email_ok cs),
                     TransformingMsg #
                     map SkippingInvalid (filter (\<lambda>r. \<not> valid_email r) data) @
                     [TransformedCount (length (filter email_ok cs))]))) \<and>
         (\<not> list_all numbers_parse data \<longrightarrow> fst (transform_data clock data) = Inl ValueError)"
proof (intro conjI impI)
  assume "list_all numbers_parse data"
  with assms obtain cs where cs: "transform_each clock 0 data = map Inr cs"
    using transform_each_strings by blast
  with transform_data_of_each [OF cs]
  show "\<exists>cs. transform_each clock 0 data = map Inr cs \<and>
           transform_data clock data =
             (Inr (filter email_ok cs),
              TransformingMsg #
              map SkippingInvalid (filter (\<lambda>r. \<not> valid_email r) data) @
              [TransformedCount (length (filter email_ok cs))])"
    by blast
next
  assume "\<not> list_all numbers_parse data"
  with assms have "fst (transform_loop clock 0 data [] [TransformingMsg]) = Inl ValueError"
    by (rule transform_loop_raises)
  then show "fst (transform_data clock data) = Inl ValueError"
    by (cases "transform_loop clock 0 data [] [TransformingMsg]") (simp add: transform_data_def)
qed

theorem transform_data_returns_or_raises_witness:
  "list_all string_fields (dict_reader users_csv) \<and>
   list_all numbers_parse (dict_reader users_csv) \<and>
   transform_data (fixed_clock ''2024-05-01'') (dict_reader users_csv) =
     (Inr [alice_row],
      [TransformingMsg,
       SkippingInvalid (str_record [(''id'', ''2''), (''name'', ''bob''),
          (''email'', ''not-an-email''), (''age'', ''''), (''city'', ''sf'')]),
       TransformedCount 1]) \<and>
   (\<exists>cs. transform_each (fixed_clock ''2024-05-01'') 0 (dict_reader users_csv) = map Inr cs \<and>
         transform_data (fixed_clock ''2024-05-01'') (dict_reader users_csv) =
           (Inr (filter email_ok cs),
            TransformingMsg #
            map SkippingInvalid (filter (\<lambda>r. \<not> valid_email r) (dict_reader users_csv)) @
            [TransformedCount (length (filter email_ok cs))])) \<and>
   list_all string_fields (dict_reader rejects_csv @ bad_id_batch) \<and>
   \<not> list_all numbers_parse (dict_reader rejects_csv @ bad_id_batch) \<and>
   fst (transform_data (fixed_clock ''2024-05-01'') (dict_reader rejects_csv @ bad_id_batch)) =
     Inl ValueError"
proof -
  have a: "list_all string_fields (dict_reader users_csv)"
    by code_simp
  have b: "list_all numbers_parse (dict_reader users_csv)"
    by code_simp
  have c: "transform_data (fixed_clock ''2024-05-01'') (dict_reader users_csv) =
     (Inr [alice_row],
      [TransformingMsg,
       SkippingInvalid (str_record [(''id'', ''2''), (''name'', ''bob''),
          (''email'', ''not-an-email''), (''age'', ''''), (''city'', ''sf'')]),
       TransformedCount 1])"
    by code_simp
  have d: "list_all string_fields (dict_reader rejects_csv @ bad_id_batch)"
    by code_simp
  have e: "\<not> list_all numbers_parse (dict_reader rejects_csv @ bad_id_batch)"
    by code_simp
  show ?thesis
    using a b c d e
      transform_data_returns_or_raises [OF a, of "fixed_clock ''2024-05-01''"]
      transform_data_returns_or_raises [OF d, of "fixed_clock ''2024-05-01''"]
    by blast
qed

text \<open>The id \<^verbatim>\<open>abc\<close> does not become 0: the row raises \<^verbatim>\<open>ValueError\<close>.\<close>

theorem unparseable_id_raises:
  "int_of_str ''abc'' = None \<and>
   transform_record ''2024-05-01''
     (str_record [(''id'', ''abc''), (''name'', ''bob''), (''email'', ''bob@example.com'')]) =
   Inl ValueError"
  by code_simp

text \<open>
  C2. The id of the transformed record is 0 when the row has no id field, and the integer
  that \<^verbatim>\<open>int\<close> reads when the field holds a text that parses. When the text does not parse
  (the empty text included) no record is produced: the conversion raises \<^verbatim>\<open>ValueError\<close>.
\<close>

theorem id_parsed_or_zero_or_raise:
  "(map_of r (Some ''id'') = None \<and> transform_record today r = Inr c \<longrightarrow> id' c = 0) \<and>
   (map_of r (Some ''id'') = Some (PyStr s) \<and> int_of_str s = Some n \<and>
      transform_record today r = Inr c \<longrightarrow> id' c = n) \<and>
   (map_of r (Some ''id'') = Some (PyStr s) \<and> int_of_str s = None \<longrightarrow>
      transform_record today r = Inl ValueError)"
proof (intro conjI impI)
  assume "map_of r (Some ''id'') = None \<and> transform_record today r = Inr c"
  then show "id' c = 0"
    by (auto elim!: transform_record_Inr simp: dict_get_def py_int_def)
next
  assume "map_of r (Some ''id'') = Some (PyStr s) \<and> int_of_str s = Some n \<and>
      transform_record today r = Inr c"
  then show "id' c = n"
    by (auto elim!: transform_record_Inr simp: dict_get_def py_int_def)
next
  assume "map_of r (Some ''id'') = Some (PyStr s) \<and> int_of_str s = None"
  then show "transform_record today r = Inl ValueError"
    by (simp add: transform_record_def dict_get_def py_int_def and_then_simps)
qed

theorem id_parsed_or_zero_or_raise_witness:
  "transform_record ''2024-05-01'' (str_record [(''name'', ''ann''), (''email'', ''ann@example.com'')]) =
     Inr \<lparr>id' = 0, name = ''Ann'', email = ''ann@example.com'', age = None, city = '''',
          processed_date = ''2024-05-01''\<rparr> \<and>
   int_of_str '' 1_000 '' = Some 1000 \<and>
   transform_record ''2024-05-01''
     (str_record [(''id'', '' 1_000 ''), (''email'', ''ann@example.com'')]) =
     Inr \<lparr>id' = 1000, name = '''', email = ''ann@example.com'', age = None, city = '''',
          processed_date = ''2024-05-01''\<rparr> \<and>
   int_of_str '''' = None \<and>
   transform_record ''2024-05-01'' (str_record [(''id'', ''''), (''email'', ''ann@example.com'')]) =
     Inl ValueError"
proof -
  let ?r1 = "str_record [(''name'', ''ann''), (''email'', ''ann@example.com'')]"
  let ?c1 = "\<lparr>id' = 0, name = ''Ann'', email = ''ann@example.com'', age = None, city = '''',
          processed_date = ''2024-05-01''\<rparr>"
  let ?r2 = "str_record [(''id'', '' 1_000 ''), (''email'', ''ann@example.com'')]"
  let ?c2 = "\<lparr>id' = 1000, name = '''', email = ''ann@example.com'', age = None, city = '''',
          processed_date = ''2024-05-01''\<rparr>"
  let ?r3 = "str_record [(''id'', ''''), (''email'', ''ann@example.com'')]"
  have a1: "map_of ?r1 (Some ''id'') = None" by (simp add: str_record_def)
  have a2: "transform_record ''2024-05-01'' ?r1 = Inr ?c1" by code_simp
  have b1: "map_of ?r2 (Some ''id'') = Some (PyStr '' 1_000 '')" by (simp add: str_record_def)
  have b2: "int_of_str '' 1_000 '' = Some 1000" by code_simp
  have b3: "transform_record ''2024-05-01'' ?r2 = Inr ?c2" by code_simp
  have c1: "map_of ?r3 (Some ''id'') = Some (PyStr '''')" by (simp add: str_record_def)
  have c2: "int_of_str '''' = None" by code_simp
  have "transform_record ''2024-05-01'' ?r3 = Inl ValueError"
    using c1 c2 id_parsed_or_zero_or_raise [where r = ?r3 and s = "''''" and today = "''2024-05-01''"]
    by blast
  moreover have "id' ?c1 = 0"
    using a1 a2 id_parsed_or_zero_or_raise [where r = ?r1 and today = "''2024-05-01''" and c = ?c1]
    by simp
  moreover have "id' ?c2 = 1000"
    using b1 b2 b3
      id_parsed_or_zero_or_raise [where r = ?r2 and s = "'' 1_000 ''" and today = "''2024-05-01''"
        and c = ?c2 and n = 1000]
    by simp
  ultimately show ?thesis
    using a2 b2 b3 c2 by blast
qed

subsection \<open>Normalized fields\<close>




subsection \<open>Failures during the load\<close>

lemma answers_sqlite_not_raised:
  "list_all bindable rs \<Longrightarrow> list_all (\<lambda>a. \<not> is_raised a) (answers insert_or_replace rs t)"
  by (induction rs arbitrary: t)
    (simp_all add: insert_or_replace_def is_raised_def table_after_answer_def)

text \<open>
  An id of 9223372036854775808 (2 to the power 63) cannot be bound: \<^verbatim>\<open>OverflowError\<close>
  is not an \<^verbatim>\<open>sqlite3.Error\<close>, so it leaves \<^verbatim>\<open>load_data\<close> before the commit and before
  the count is printed, and the upsert of the first record, which had succeeded, is not
  persisted.
\<close>

theorem overflow_aborts_load:
  "load_data [ann_row, huge_id_row] None = (Inl OverflowError, Some [], [LoadingMsg])"
  by code_simp

text \<open>
  C8. When no upsert of the batch raises an exception other than \<^verbatim>\<open>sqlite3.Error\<close>,
  \<^verbatim>\<open>load_data\<close> attempts every record in order, prints one line for each failure and goes
  on, commits once after the loop the table that the successful upserts built, and prints
  the number of successful upserts. The upsert of the source raises nothing on a batch
  whose ids and ages fit 64 bits.
\<close>

theorem load_data_continues_on_sqlite_error:
  "(list_all (\<lambda>a. \<not> is_raised a) (answers exec data (create_table_if_not_exists db)) \<longrightarrow>
      load_data_with exec data db =
        (Inr (), Some (table_after exec data (create_table_if_not_exists db)),
         LoadingMsg # error_lines data (answers exec data (create_table_if_not_exists db)) @
         [LoadedCount (length (filter is_executed
                                 (answers exec data (create_table_if_not_exists db))))]) \<and>
      length (answers exec data (create_table_if_not_exists db)) = length data) \<and>
   (list_all bindable data \<longrightarrow>
      list_all (\<lambda>a. \<not> is_raised a) (answers insert_or_replace data (create_table_if_not_exists db)) \<and>
      load_data data db =
        (Inr (), Some (upsert_all data (create_table_if_not_exists db)),
         [LoadingMsg, LoadedCount (length data)]))"
proof (intro conjI impI)
  assume "list_all (\<lambda>a. \<not> is_raised a) (answers exec data (create_table_if_not_exists db))"
  from load_loop_answers [OF this]
  show "load_data_with exec data db =
        (Inr (), Some (table_after exec data (create_table_if_not_exists db)),
         LoadingMsg # error_lines data (answers exec data (create_table_if_not_exists db)) @
         [LoadedCount (length (filter is_executed
                                 (answers exec data (create_table_if_not_exists db))))])"
    by (simp add: load_data_with_def Let_def)
next
  show "length (answers exec data (create_table_if_not_exists db)) = length data"
    by (rule length_answers)
next
  assume "list_all bindable data"
  then show "list_all (\<lambda>a. \<not> is_raised a)
      (answers insert_or_replace data (create_table_if_not_exists db))"
    by (rule answers_sqlite_not_raised)
next
  assume "list_all bindable data"
  then show "load_data data db =
        (Inr (), Some (upsert_all data (create_table_if_not_exists db)),
         [LoadingMsg, LoadedCount (length data)])"
    by (simp add: load_data_sqlite)
qed

theorem load_data_continues_on_sqlite_error_witness:
  "list_all (\<lambda>a. \<not> is_raised a)
     (answers (failing_on [2]) [ann_row, ben_again_row, carol_row]
        (create_table_if_not_exists None)) \<and>
   load_data_with (failing_on [2]) [ann_row, ben_again_row, carol_row] None =
     (Inr (), Some [ann_row, carol_row],
      [LoadingMsg, InsertErrorMsg 2 ''disk I/O error'', LoadedCount 2]) \<and>
   list_all bindable [ann_row, ben_again_row, carol_row] \<and>
   load_data [ann_row, ben_again_row, carol_row] None =
     (Inr (), Some [ann_row, ben_again_row, carol_row], [LoadingMsg, LoadedCount 3])"
proof -
  let ?data = "[ann_row, ben_again_row, carol_row]"
  have a: "list_all (\<lambda>a. \<not> is_raised a)
     (answers (failing_on [2]) ?data (create_table_if_not_exists None))"
    by code_simp
  have b: "table_after (failing_on [2]) ?data (create_table_if_not_exists None) =
      [ann_row, carol_row]"
    by code_simp
  have c: "error_lines ?data (answers (failing_on [2]) ?data (create_table_if_not_exists None)) =
      [InsertErrorMsg 2 ''disk I/O error'']"
    by code_simp
  have d: "length (filter is_executed
      (answers (failing_on [2]) ?data (create_table_if_not_exists None))) = 2"
    by code_simp
  have e: "list_all bindable ?data"
    by code_simp
  have f: "upsert_all ?data (create_table_if_not_exists None) = ?data"
    by code_simp
  have g: "load_data_with (failing_on [2]) ?data None =
      (Inr (), Some (table_after (failing_on [2]) ?data (create_table_if_not_exists None)),
       LoadingMsg #
       error_lines ?data (answers (failing_on [2]) ?data (create_table_if_not_exists None)) @
       [LoadedCount (length (filter is_executed
          (answers (failing_on [2]) ?data (create_table_if_not_exists None))))])"
    using a load_data_continues_on_sqlite_error [of "failing_on [2]" ?data None] by blast
  have h: "load_data ?data None =
      (Inr (), Some (upsert_all ?data (create_table_if_not_exists None)),
       [LoadingMsg, LoadedCount (length ?data)])"
    using e load_data_continues_on_sqlite_error [of "failing_on [2]" ?data None] by blast
  have i: "load_data_with (failing_on [2]) ?data None =
      (Inr (), Some [ann_row, carol_row],
       [LoadingMsg, InsertErrorMsg 2 ''disk I/O error'', LoadedCount 2])"
    unfolding g b c d by simp
  have j: "load_data ?data None = (Inr (), Some ?data, [LoadingMsg, LoadedCount 3])"
    unfolding h f by simp
  show ?thesis
    using a e i j by blast
qed

subsection \<open>Records with the same id\<close>

text \<open>
  Two records with the id 1, then a record with the id 2 and the email of the second: the
  unique email makes REPLACE delete the row with the id 1, and the table is left with no
  row for that id.
\<close>

theorem later_email_conflict_removes_row:
  "load_data [ann_row, ben_row, ben_again_row] None =
     (Inr (), Some [ben_again_row], [LoadingMsg, LoadedCount 3]) \<and>
   id' ann_row = 1 \<and> id' ben_row = 1 \<and> id' ben_again_row = 2"
  by code_simp

text \<open>
  C9. In a batch whose ids and ages fit 64 bits, take the last record with a given id.
  When no record after it carries its email, the table after \<^verbatim>\<open>load_data\<close> has exactly
  one row with that id, and the row is that record.
\<close>

theorem last_record_with_id_wins:
  assumes "list_all bindable (xs @ r # ys)"
    and "\<forall>y\<in>set ys. id' y \<noteq> id' r \<and> email y \<noteq> email r"
  shows "\<exists>t out. load_data (xs @ r # ys) db = (Inr (), Some t, out) \<and>
                 filter (\<lambda>row. id' row = id' r) t = [r]"
proof -
  from assms(2) have "\<forall>y\<in>set ys. \<not> conflicts y r"
    by (auto simp: conflicts_def)
  from last_with_id [OF this]
  have "filter (\<lambda>row. id' row = id' r)
          (upsert_all (xs @ r # ys) (create_table_if_not_exists db)) = [r]" .
  with assms(1) show ?thesis
    by (simp add: load_data_sqlite)
qed

theorem last_record_with_id_wins_witness:
  "list_all bindable ([ann_row] @ ben_row # [carol_row]) \<and>
   id' ann_row = id' ben_row \<and>
   load_data ([ann_row] @ ben_row # [carol_row]) None =
     (Inr (), Some [ben_row, carol_row], [LoadingMsg, LoadedCount 3]) \<and>
   (\<exists>t out. load_data ([ann_row] @ ben_row # [carol_row]) None = (Inr (), Some t, out) \<and>
            filter (\<lambda>row. id' row = id' ben_row) t = [ben_row])"
proof -
  have a: "list_all bindable ([ann_row] @ ben_row # [carol_row])"
    by code_simp
  have b: "\<forall>y\<in>set [carol_row]. id' y \<noteq> id' ben_row \<and> email y \<noteq> email ben_row"
    by (simp add: carol_row_def ben_row_def)
  have c: "id' ann_row = id' ben_row"
    by (simp add: ann_row_def ben_row_def)
  have d: "load_data ([ann_row] @ ben_row # [carol_row]) None =
     (Inr (), Some [ben_row, carol_row], [LoadingMsg, LoadedCount 3])"
    by code_simp
  show ?thesis
    using a c d last_record_with_id_wins [OF a b, of None] by blast
qed

end
